theory Spec2Isabelle
  imports Main "HOL-Library.Word"
begin

section \<open>The pending-call table of \<open>neovim.cpp\<close>\<close>

text \<open>
  \<open>neovim::response_handler_table\<close> holds a \<open>std::vector<response_handler>\<close> and the
  index assigned last. A \<open>response_handler\<close> is a callable wrapper that converts to
  \<open>bool\<close>: it is modelled as \<open>'h option\<close>, \<open>None\<close> being the default-constructed (empty)
  handler and \<open>Some h\<close> a handler whose target is \<open>h\<close>. Indices are \<open>size_t\<close>, modelled as
  \<open>nat\<close>; the id returned by \<open>store\<close> is the index cast to \<open>uint32_t\<close>.

  The class declaration (\<open>neovim.hpp\<close>) is not among the sources, so the initial contents
  of the table are a parameter of every statement below.
\<close>

record 'h response_handler_table =
  handlers :: "'h option list"
  last_index :: nat

text \<open>
  What the C++ leaves undefined or fatal is a value of the model: a read or write outside
  the vector, \<open>get<T>\<close> on a message object holding another alternative, calling an empty
  handler, \<open>std::abort\<close>, and \<open>dispatch_resume\<close> on a dispatch source that is not suspended
  (an over-resume, on which libdispatch ends the process).
\<close>

datatype fault = Out_of_range | Bad_variant_access | Bad_function_call | Aborted | Over_resume

text \<open>
  \<open>static constexpr uint32_t null_msgid = std::numeric_limits<uint32_t>::max()\<close>, the
  largest 32-bit value \<open>0xFFFFFFFF\<close>.
\<close>

definition null_msgid :: "32 word" where
  "null_msgid = 4294967295"

text \<open>\<open>has_handler(id)\<close>: \<open>id < handlers.size() && handlers[id]\<close>.\<close>

definition has_handler :: "'h response_handler_table \<Rightarrow> nat \<Rightarrow> bool" where
  "has_handler t i \<longleftrightarrow> i < length (handlers t) \<and> handlers t ! i \<noteq> None"

text \<open>\<open>get(id)\<close>: \<open>handlers[id]\<close>, unchecked in the source.\<close>

definition get :: "'h response_handler_table \<Rightarrow> nat \<Rightarrow> fault + 'h option" where
  "get t i = (if i < length (handlers t) then Inr (handlers t ! i) else Inl Out_of_range)"

text \<open>
  Both loops of \<open>find_empty\<close> have the shape
  \<open>for (size_t i = from; i < bound; ++i) if (!handlers[i]) return i;\<close>.
  \<open>scan hs i bound\<close> is that loop started at \<open>i\<close>: \<open>Inr (Some j)\<close> when it returns \<open>j\<close>,
  \<open>Inr None\<close> when it runs to its end, and \<open>Inl Out_of_range\<close> when it reads \<open>handlers[i]\<close>
  with \<open>i\<close> outside the vector (possible in the second loop only, whose bound is
  \<open>last_index\<close> and not the size).
\<close>

function scan :: "'h option list \<Rightarrow> nat \<Rightarrow> nat \<Rightarrow> fault + nat option" where
  "scan hs i bound =
     (if i < bound then
        (if i < length hs then
           (if hs ! i = None then Inr (Some i) else scan hs (Suc i) bound)
         else Inl Out_of_range)
      else Inr None)"
  by pat_completeness auto
termination
  by (relation "measure (\<lambda>(hs, i, bound). bound - i)") auto

declare scan.simps [simp del]

text \<open>
  \<open>find_empty\<close>: the first loop runs over \<open>last_index + 1 \<le> i < size\<close>, the second over
  \<open>0 \<le> i \<le> last_index\<close>; \<open>size\<close> is returned when neither finds an empty slot.
\<close>

definition find_empty :: "'h response_handler_table \<Rightarrow> fault + nat" where
  "find_empty t =
     (let size = length (handlers t) in
      case scan (handlers t) (last_index t + 1) size of
        Inl f \<Rightarrow> Inl f
      | Inr (Some i) \<Rightarrow> Inr i
      | Inr None \<Rightarrow>
          (case scan (handlers t) 0 (last_index t + 1) of
             Inl f \<Rightarrow> Inl f
           | Inr (Some i) \<Rightarrow> Inr i
           | Inr None \<Rightarrow> Inr size))"

text \<open>
  \<open>store(handler)\<close>: \<open>resize(size * 2)\<close> appends default-constructed (empty) handlers when
  \<open>find_empty\<close> returned the size; the write \<open>handlers[index] = std::move(handler)\<close> is
  unchecked in the source (it lands outside the vector when the size is 0, since
  \<open>0 * 2 = 0\<close>); the result is \<open>static_cast<uint32_t>(index)\<close>.
\<close>

definition store ::
  "'h response_handler_table \<Rightarrow> 'h option \<Rightarrow> fault + (32 word \<times> 'h response_handler_table)" where
  "store t handler =
     (case find_empty t of
        Inl f \<Rightarrow> Inl f
      | Inr index \<Rightarrow>
          (let hs = (if index = length (handlers t)
                     then handlers t @ replicate (length (handlers t)) None
                     else handlers t)
           in if index < length hs
              then Inr (of_nat index, \<lparr>handlers = hs[index := handler], last_index = index\<rparr>)
              else Inl Out_of_range))"

text \<open>
  \<open>N\<close> consecutive calls of \<open>store\<close>, one per handler of the list, with nothing in between:
  the ids in the order they were returned, and the table after the last call.
\<close>

fun store_all ::
  "'h response_handler_table \<Rightarrow> 'h option list
     \<Rightarrow> fault + (32 word list \<times> 'h response_handler_table)" where
  "store_all t [] = Inr ([], t)"
| "store_all t (h # hs) =
     (case store t h of
        Inl f \<Rightarrow> Inl f
      | Inr (i, t') \<Rightarrow>
          (case store_all t' hs of
             Inl f \<Rightarrow> Inl f
           | Inr (ids, t'') \<Rightarrow> Inr (i # ids, t'')))"

text \<open>
  The class invariant \<open>find_empty\<close> relies on: the index assigned last is a slot of the
  vector (so the vector is not empty). \<open>store\<close> re-establishes it.
\<close>

definition table_ok :: "'h response_handler_table \<Rightarrow> bool" where
  "table_ok t \<longleftrightarrow> last_index t < length (handlers t)"

section \<open>Decoded messages\<close>

text \<open>
  \<open>msg::object\<close> is declared by the message library, which is not among the sources. The
  session only asks an object for its \<open>integer\<close>, \<open>string\<close> and \<open>array\<close> alternatives, so
  these three are constructors and every other alternative (nil, booleans, floats, maps,
  ...) is the parameter \<open>'x\<close>. The library's \<open>type_string\<close> and \<open>to_string\<close>, and the bytes
  its packer appends for a request \<open>{0, msgid, method, args}\<close>, are parameters as well.
\<close>

datatype 'x obj =
    Msg_integer int
  | Msg_string string
  | Msg_array "'x obj list"
  | Msg_other 'x

record 'x msg_lib =
  type_string :: "'x obj \<Rightarrow> string"
  to_string :: "'x obj \<Rightarrow> string"
  pack_request :: "32 word \<Rightarrow> string \<Rightarrow> 'x obj list \<Rightarrow> 8 word list"

text \<open>\<open>obj.is<T>()\<close>\<close>

fun is_integer :: "'x obj \<Rightarrow> bool" where
  "is_integer (Msg_integer i) = True"
| "is_integer other = False"

fun is_string :: "'x obj \<Rightarrow> bool" where
  "is_string (Msg_string str) = True"
| "is_string other = False"

fun is_array :: "'x obj \<Rightarrow> bool" where
  "is_array (Msg_array a) = True"
| "is_array other = False"

text \<open>\<open>obj.get<T>()\<close>, a fault on an object that holds another alternative.\<close>

fun get_integer :: "'x obj \<Rightarrow> fault + int" where
  "get_integer (Msg_integer i) = Inr i"
| "get_integer other = Inl Bad_variant_access"

fun get_string :: "'x obj \<Rightarrow> fault + string" where
  "get_string (Msg_string str) = Inr str"
| "get_string other = Inl Bad_variant_access"

fun get_array :: "'x obj \<Rightarrow> fault + 'x obj list" where
  "get_array (Msg_array a) = Inr a"
| "get_array other = Inl Bad_variant_access"

text \<open>\<open>array[i]\<close>, a fault outside the array.\<close>

definition at :: "'a list \<Rightarrow> nat \<Rightarrow> fault + 'a" where
  "at xs i = (if i < length xs then Inr (xs ! i) else Inl Out_of_range)"

text \<open>Sequencing of steps that may fault: the first fault ends the function.\<close>

definition and_then :: "fault + 'a \<Rightarrow> ('a \<Rightarrow> fault + 'b) \<Rightarrow> fault + 'b" where
  "and_then m f = (case m of Inl e \<Rightarrow> Inl e | Inr x \<Rightarrow> f x)"

text \<open>The conversion of a decoded integer to \<open>size_t\<close> (64 bits on the platform).\<close>

definition to_size_t :: "int \<Rightarrow> nat" where
  "to_size_t i = nat (i mod 2 ^ 64)"

text \<open>
  \<open>is_notification\<close> and \<open>is_response\<close>. The conjunctions are the source's \<open>&&\<close> chains:
  every element is read after the test of the size.
\<close>

definition is_notification :: "'x obj list \<Rightarrow> bool" where
  "is_notification array \<longleftrightarrow>
     length array = 3 \<and>
     is_integer (array ! 0) \<and>
     is_string (array ! 1) \<and>
     is_array (array ! 2) \<and>
     get_integer (array ! 0) = Inr 2"

definition is_response :: "'x obj list \<Rightarrow> bool" where
  "is_response array \<longleftrightarrow>
     length array = 4 \<and>
     is_integer (array ! 0) \<and>
     is_integer (array ! 1) \<and>
     get_integer (array ! 0) = Inr 1"

section \<open>The session\<close>

text \<open>
  Everything the session does to its collaborators is recorded, in order: the three
  \<open>os_log\<close> lines, the call of a stored continuation, the calls into the UI, and the
  calls that suspend, resume and cancel the dispatch sources.
\<close>

datatype ('h, 'x) effect =
    Log_message_type_error string string
  | Log_no_response_handler nat string
  | Log_unhandled_notification string string
  | Call_handler 'h "'x obj" "'x obj"
  | Ui_redraw "'x obj list"
  | Ui_window_close
  | Dispatch_resume_read
  | Dispatch_resume_write
  | Dispatch_suspend_write
  | Dispatch_cancel_write

text \<open>
  The fields of \<open>neovim\<close> that the functions below read or write. \<open>packer\<close> is the write
  buffer (the bytes serialized and not yet written). The state of the write source lives
  in libdispatch: \<open>write_suspend_count\<close> is its suspension count (\<open>dispatch_suspend\<close> adds
  one, \<open>dispatch_resume\<close> takes one away and ends the process at count 0, a source is
  created with count 1 and its handler runs only at count 0), \<open>write_cancelled\<close> is what
  \<open>dispatch_source_testcancel\<close> answers.
\<close>

record ('h, 'x) neovim =
  read_fd :: int
  write_fd :: int
  handler_table :: "'h response_handler_table"
  packer :: "8 word list"
  write_suspend_count :: int
  write_cancelled :: bool
  effects :: "('h, 'x) effect list"

definition emit :: "('h, 'x) neovim \<Rightarrow> ('h, 'x) effect \<Rightarrow> ('h, 'x) neovim" where
  "emit s e = s\<lparr>effects := effects s @ [e]\<rparr>"


text \<open>
  \<open>neovim::neovim()\<close>: no queue, no sources, both descriptors \<open>-1\<close>. The table and the
  packer are members constructed by their own (absent) classes: the table is a parameter,
  the packer starts empty. No write source exists yet; its two fields get their values in
  \<open>create_sources\<close>.
\<close>

definition neovim_new :: "'h response_handler_table \<Rightarrow> ('h, 'x) neovim" where
  "neovim_new table =
     \<lparr>read_fd = - 1, write_fd = - 1, handler_table = table, packer = [],
      write_suspend_count = 1, write_cancelled = False, effects = []\<rparr>"

text \<open>
  \<open>create_sources\<close>: both sources are created (suspended, not cancelled), the read source
  is resumed, the write source is left suspended; returns 0.
\<close>

definition create_sources :: "('h, 'x) neovim \<Rightarrow> int \<times> ('h, 'x) neovim" where
  "create_sources s =
     (0, emit (s\<lparr>write_suspend_count := 1, write_cancelled := False\<rparr>) Dispatch_resume_read)"

text \<open>\<open>io_error\<close>: \<open>std::abort()\<close>.\<close>

definition io_error :: "fault + 'a" where
  "io_error = Inl Aborted"

text \<open>
  \<open>dispatch_resume\<close> on a suspension count: one less for a suspended source, the end of the
  process for a source that is not suspended.
\<close>

definition dispatch_resume :: "int \<Rightarrow> fault + int" where
  "dispatch_resume count = (if 0 < count then Inr (count - 1) else Inl Over_resume)"

text \<open>\<open>io_cancel\<close>: unless the write source is cancelled already, resume it and cancel it.\<close>

definition io_cancel :: "('h, 'x) neovim \<Rightarrow> fault + ('h, 'x) neovim" where
  "io_cancel s =
     (if \<not> write_cancelled s
      then and_then (dispatch_resume (write_suspend_count s)) (\<lambda>count.
             Inr (emit (emit (s\<lparr>write_suspend_count := count, write_cancelled := True\<rparr>)
                          Dispatch_resume_write)
                    Dispatch_cancel_write))
      else Inr s)"

text \<open>
  \<open>on_rpc_response\<close>. The continuation is called with \<open>array[2]\<close> and \<open>array[3]\<close> and the
  slot is then overwritten with an empty handler. The call is recorded as an effect; what
  the continuation's own body does is outside the model (it is taken not to touch the
  session).
\<close>

definition on_rpc_response ::
  "'x msg_lib \<Rightarrow> ('h, 'x) neovim \<Rightarrow> 'x obj list \<Rightarrow> fault + ('h, 'x) neovim" where
  "on_rpc_response L s array =
     and_then (at array 1) (\<lambda>a1.
     and_then (get_integer a1) (\<lambda>i.
       let msgid = to_size_t i in
       if msgid = unat null_msgid then Inr s
       else if \<not> has_handler (handler_table s) msgid
       then Inr (emit s (Log_no_response_handler msgid (to_string L (Msg_array array))))
       else
         and_then (get (handler_table s) msgid) (\<lambda>handler.
         and_then (at array 2) (\<lambda>a2.
         and_then (at array 3) (\<lambda>a3.
           case handler of
             None \<Rightarrow> Inl Bad_function_call
           | Some h \<Rightarrow>
               Inr ((emit s (Call_handler h a2 a3))
                      \<lparr>handler_table :=
                         (handler_table s)
                           \<lparr>handlers := (handlers (handler_table s))[msgid := None]\<rparr>\<rparr>))))))"

text \<open>
  \<open>on_rpc_notification\<close>. The log line prints at most the first 128 characters of the
  name (\<open>%.*s\<close> with \<open>std::min(name.size(), 128ul)\<close>).
\<close>

definition on_rpc_notification ::
  "'x msg_lib \<Rightarrow> ('h, 'x) neovim \<Rightarrow> 'x obj list \<Rightarrow> fault + ('h, 'x) neovim" where
  "on_rpc_notification L s array =
     and_then (at array 1) (\<lambda>a1.
     and_then (get_string a1) (\<lambda>name.
     and_then (at array 2) (\<lambda>a2.
     and_then (get_array a2) (\<lambda>args.
       if name = ''redraw'' then Inr (emit s (Ui_redraw args))
       else Inr (emit s (Log_unhandled_notification
                           (take (min (length name) 128) name)
                           (to_string L (Msg_array args))))))))"

text \<open>\<open>on_rpc_message\<close>\<close>

definition on_rpc_message ::
  "'x msg_lib \<Rightarrow> ('h, 'x) neovim \<Rightarrow> 'x obj \<Rightarrow> fault + ('h, 'x) neovim" where
  "on_rpc_message L s obj =
     (let type_error = Inr (emit s (Log_message_type_error (type_string L obj) (to_string L obj)))
      in case obj of
           Msg_array array \<Rightarrow>
             if is_notification array then on_rpc_notification L s array
             else if is_response array then on_rpc_response L s array
             else type_error
         | other \<Rightarrow> type_error)"

text \<open>
  The loop \<open>while (msg::object *obj = unpacker.unpack()) on_rpc_message(*obj)\<close>, over the
  objects the decoder yields after the bytes just read were fed to it.
\<close>

fun on_rpc_messages ::
  "'x msg_lib \<Rightarrow> ('h, 'x) neovim \<Rightarrow> 'x obj list \<Rightarrow> fault + ('h, 'x) neovim" where
  "on_rpc_messages L s [] = Inr s"
| "on_rpc_messages L s (obj # objs) =
     and_then (on_rpc_message L s obj) (\<lambda>s'. on_rpc_messages L s' objs)"

text \<open>
  \<open>io_can_read\<close>. \<open>bytes\<close> is what \<open>read(2)\<close> returned and \<open>objs\<close> what the decoder yields
  from the bytes read.
\<close>

definition io_can_read ::
  "'x msg_lib \<Rightarrow> ('h, 'x) neovim \<Rightarrow> int \<Rightarrow> 'x obj list \<Rightarrow> fault + ('h, 'x) neovim" where
  "io_can_read L s bytes objs =
     (if bytes \<le> 0 then
        (if bytes = - 1 then io_error
         else io_cancel (emit s Ui_window_close))
      else on_rpc_messages L s objs)"

text \<open>
  \<open>io_can_write\<close>. \<open>bytes\<close> is what \<open>write(2)\<close> returned for the whole buffer;
  \<open>packer.consume(bytes)\<close> drops that prefix.
\<close>

definition io_can_write :: "('h, 'x) neovim \<Rightarrow> int \<Rightarrow> fault + ('h, 'x) neovim" where
  "io_can_write s bytes =
     (if bytes = - 1 then io_error
      else
        (let s' = s\<lparr>packer := drop (nat bytes) (packer s)\<rparr>
         in if length (packer s') = 0
            then Inr (emit (s'\<lparr>write_suspend_count := write_suspend_count s' + 1\<rparr>)
                        Dispatch_suspend_write)
            else Inr s'))"



section \<open>Connecting\<close>

text \<open>
  The process's open descriptors and the system calls made so far. What the kernel answers
  to \<open>socket(2)\<close> and \<open>connect(2)\<close> is an input: the value returned and the \<open>errno\<close> left
  behind by a failure. \<open>sizeof(sockaddr_un::sun_path)\<close> comes from the platform's
  headers and is a parameter.
\<close>

datatype syscall = Sys_socket | Sys_fcntl_cloexec int | Sys_connect int string

record process =
  open_fds :: "int set"
  syscalls :: "syscall list"

record kernel =
  socket_ret :: int
  socket_errno :: int
  connect_ret :: int
  connect_errno :: int

definition EINVAL :: int where
  "EINVAL = 22"

definition sys_call :: "process \<Rightarrow> syscall \<Rightarrow> process" where
  "sys_call p c = p\<lparr>syscalls := syscalls p @ [c]\<rparr>"

text \<open>
  \<open>neovim::connect\<close>. A successful \<open>socket(2)\<close> adds its descriptor to the open ones; the
  source has no \<open>close\<close> on any path.
\<close>

definition connect ::
  "nat \<Rightarrow> kernel \<Rightarrow> string \<Rightarrow> ('h, 'x) neovim \<Rightarrow> process \<Rightarrow> int \<times> ('h, 'x) neovim \<times> process" where
  "connect sun_path_size K addr s p =
     (if length addr \<ge> sun_path_size then (EINVAL, s, p)
      else
        (let sock = socket_ret K;
             p1 = sys_call p Sys_socket
         in if sock = - 1 then (socket_errno K, s, p1)
            else
              (let p2 = sys_call (p1\<lparr>open_fds := insert sock (open_fds p1)\<rparr>)
                          (Sys_fcntl_cloexec sock);
                   p3 = sys_call p2 (Sys_connect sock addr)
               in if connect_ret K = - 1 then (connect_errno K, s, p3)
                  else
                    (let (rc, s') = create_sources (s\<lparr>read_fd := sock, write_fd := sock\<rparr>)
                     in (rc, s', p3)))))"

section \<open>Auxiliary definitions for the statements\<close>


text \<open>
  A message library to evaluate the functions with: constant strings for \<open>type_string\<close>
  and \<open>to_string\<close>, and a one-byte serialization (\<open>0x94\<close>, the header of a 4-element array).
\<close>

definition example_lib :: "unit msg_lib" where
  "example_lib =
     \<lparr>type_string = (\<lambda>obj. ''object''),
      to_string = (\<lambda>obj. ''value''),
      pack_request = (\<lambda>msgid method args. [148])\<rparr>"

section \<open>The loops of \<open>find_empty\<close>\<close>

lemma scan_Some:
  "scan hs i b = Inr (Some j) \<Longrightarrow>
     i \<le> j \<and> j < b \<and> j < length hs \<and> hs ! j = None \<and> (\<forall>k. i \<le> k \<and> k < j \<longrightarrow> hs ! k \<noteq> None)"
proof (induction hs i b rule: scan.induct)
  case (1 hs i bound)
  show ?case
  proof (cases "i < bound \<and> i < length hs")
    case False
    with "1.prems" show ?thesis by (simp add: scan.simps [of hs i bound] split: if_splits)
  next
    case True
    show ?thesis
    proof (cases "hs ! i = None")
      case e: True
      with True "1.prems" have "j = i" by (simp add: scan.simps [of hs i bound])
      with True e show ?thesis by auto
    next
      case ne: False
      with True "1.prems" have r: "scan hs (Suc i) bound = Inr (Some j)"
        by (simp add: scan.simps [of hs i bound])
      from "1.IH" [OF _ _ ne r] True
      have ih: "Suc i \<le> j \<and> j < bound \<and> j < length hs \<and> hs ! j = None \<and>
                (\<forall>k. Suc i \<le> k \<and> k < j \<longrightarrow> hs ! k \<noteq> None)" by simp
      have "\<forall>k. i \<le> k \<and> k < j \<longrightarrow> hs ! k \<noteq> None"
      proof (intro allI impI)
        fix k assume k: "i \<le> k \<and> k < j"
        show "hs ! k \<noteq> None"
        proof (cases "k = i")
          case True with ne show ?thesis by simp
        next
          case False with k ih show ?thesis by simp
        qed
      qed
      with ih show ?thesis by simp
    qed
  qed
qed

lemma scan_None:
  "scan hs i b = Inr None \<Longrightarrow> (\<forall>k. i \<le> k \<and> k < b \<longrightarrow> k < length hs \<and> hs ! k \<noteq> None)"
proof (induction hs i b rule: scan.induct)
  case (1 hs i bound)
  show ?case
  proof (cases "i < bound")
    case False
    then show ?thesis by auto
  next
    case True
    from True "1.prems" have il: "i < length hs"
      by (simp add: scan.simps [of hs i bound] split: if_splits)
    from True il "1.prems" have ne: "hs ! i \<noteq> None"
      by (simp add: scan.simps [of hs i bound] split: if_splits)
    from True il ne "1.prems" have r: "scan hs (Suc i) bound = Inr None"
      by (auto simp: scan.simps [of hs i bound])
    from "1.IH" [OF True il ne r]
    have ih: "\<forall>k. Suc i \<le> k \<and> k < bound \<longrightarrow> k < length hs \<and> hs ! k \<noteq> None" .
    show ?thesis
    proof (intro allI impI)
      fix k assume k: "i \<le> k \<and> k < bound"
      show "k < length hs \<and> hs ! k \<noteq> None"
      proof (cases "k = i")
        case True with il ne show ?thesis by simp
      next
        case False with k ih show ?thesis by simp
      qed
    qed
  qed
qed

lemma scan_in_range: "b \<le> length hs \<Longrightarrow> scan hs i b \<noteq> Inl f"
proof (induction hs i b rule: scan.induct)
  case (1 hs i bound)
  show ?case
  proof (cases "i < bound")
    case False
    then show ?thesis by (simp add: scan.simps [of hs i bound])
  next
    case True
    with "1.prems" have il: "i < length hs" by simp
    show ?thesis
    proof (cases "hs ! i = None")
      case True
      with \<open>i < bound\<close> il show ?thesis by (simp add: scan.simps [of hs i bound])
    next
      case False
      from "1.IH" [OF True il False "1.prems"] True il False
      show ?thesis by (simp add: scan.simps [of hs i bound])
    qed
  qed
qed


lemma find_empty_cases:
  assumes ok: "table_ok t"
  shows "\<exists>i. find_empty t = Inr i \<and>
           ((last_index t < i \<and> i < length (handlers t) \<and> handlers t ! i = None \<and>
               (\<forall>k. last_index t < k \<and> k < i \<longrightarrow> handlers t ! k \<noteq> None))
          \<or> ((\<forall>k. last_index t < k \<and> k < length (handlers t) \<longrightarrow> handlers t ! k \<noteq> None) \<and>
               i \<le> last_index t \<and> handlers t ! i = None \<and>
               (\<forall>k. k < i \<longrightarrow> handlers t ! k \<noteq> None))
          \<or> ((\<forall>k. k < length (handlers t) \<longrightarrow> handlers t ! k \<noteq> None) \<and>
               i = length (handlers t)))"
proof -
  let ?hs = "handlers t" and ?l = "last_index t"
  from ok have l: "?l < length ?hs" by (simp add: table_ok_def)
  show ?thesis
  proof (cases "scan ?hs (?l + 1) (length ?hs)")
    case (Inl f)
    with scan_in_range [of "length ?hs" ?hs "?l + 1" f] show ?thesis by simp
  next
    case (Inr r)
    show ?thesis
    proof (cases r)
      case (Some j)
      with Inr have fe: "find_empty t = Inr j" by (simp add: find_empty_def)
      from scan_Some [of ?hs "?l + 1" "length ?hs" j] Inr Some
      have "?l < j \<and> j < length ?hs \<and> ?hs ! j = None \<and>
            (\<forall>k. ?l < k \<and> k < j \<longrightarrow> ?hs ! k \<noteq> None)" by auto
      with fe show ?thesis by blast
    next
      case None
      from scan_None [of ?hs "?l + 1" "length ?hs"] Inr None
      have after: "\<forall>k. ?l < k \<and> k < length ?hs \<longrightarrow> ?hs ! k \<noteq> None" by auto
      show ?thesis
      proof (cases "scan ?hs 0 (?l + 1)")
        case (Inl f)
        with scan_in_range [of "?l + 1" ?hs 0 f] l show ?thesis by simp
      next
        case r2: (Inr r')
        show ?thesis
        proof (cases r')
          case (Some j)
          with Inr None r2 have fe: "find_empty t = Inr j" by (simp add: find_empty_def)
          from scan_Some [of ?hs 0 "?l + 1" j] r2 Some
          have "j \<le> ?l \<and> ?hs ! j = None \<and> (\<forall>k. k < j \<longrightarrow> ?hs ! k \<noteq> None)" by auto
          with fe after show ?thesis by blast
        next
          case n2: None
          with Inr None r2 have fe: "find_empty t = Inr (length ?hs)"
            by (simp add: find_empty_def)
          from scan_None [of ?hs 0 "?l + 1"] r2 n2
          have before: "\<forall>k. k \<le> ?l \<longrightarrow> ?hs ! k \<noteq> None" by auto
          have "\<forall>k. k < length ?hs \<longrightarrow> ?hs ! k \<noteq> None"
          proof (intro allI impI)
            fix k assume "k < length ?hs"
            show "?hs ! k \<noteq> None"
            proof (cases "k \<le> ?l")
              case True with before show ?thesis by simp
            next
              case False with after \<open>k < length ?hs\<close> show ?thesis by simp
            qed
          qed
          with fe show ?thesis by blast
        qed
      qed
    qed
  qed
qed

lemma find_empty_slot:
  assumes ok: "table_ok t"
  shows "\<exists>i. find_empty t = Inr i \<and> i \<le> length (handlers t) \<and>
           (i < length (handlers t) \<longrightarrow> handlers t ! i = None) \<and>
           (i = length (handlers t) \<longrightarrow> (\<forall>k. k < length (handlers t) \<longrightarrow> handlers t ! k \<noteq> None))"
proof -
  from find_empty_cases [OF ok] obtain i where
    fe: "find_empty t = Inr i" and
    c: "(last_index t < i \<and> i < length (handlers t) \<and> handlers t ! i = None \<and>
               (\<forall>k. last_index t < k \<and> k < i \<longrightarrow> handlers t ! k \<noteq> None))
          \<or> ((\<forall>k. last_index t < k \<and> k < length (handlers t) \<longrightarrow> handlers t ! k \<noteq> None) \<and>
               i \<le> last_index t \<and> handlers t ! i = None \<and>
               (\<forall>k. k < i \<longrightarrow> handlers t ! k \<noteq> None))
          \<or> ((\<forall>k. k < length (handlers t) \<longrightarrow> handlers t ! k \<noteq> None) \<and>
               i = length (handlers t))" by blast
  from ok have l: "last_index t < length (handlers t)" by (simp add: table_ok_def)
  from c l have "i \<le> length (handlers t) \<and>
           (i < length (handlers t) \<longrightarrow> handlers t ! i = None) \<and>
           (i = length (handlers t) \<longrightarrow> (\<forall>k. k < length (handlers t) \<longrightarrow> handlers t ! k \<noteq> None))"
    by auto
  with fe show ?thesis by blast
qed

lemma store_result:
  assumes ok: "table_ok t" and fe: "find_empty t = Inr i"
  shows "store t h =
           Inr (of_nat i,
                \<lparr>handlers = (if i = length (handlers t)
                              then handlers t @ replicate (length (handlers t)) None
                              else handlers t)[i := h],
                 last_index = i\<rparr>)"
proof -
  from find_empty_slot [OF ok] fe have il: "i \<le> length (handlers t)" by auto
  from ok have "0 < length (handlers t)" by (auto simp: table_ok_def)
  with il fe show ?thesis by (auto simp: store_def Let_def)
qed

lemma store_table_ok:
  assumes ok: "table_ok t" and st: "store t h = Inr (w, t')"
  shows "table_ok t'"
proof -
  from find_empty_slot [OF ok] obtain i where fe: "find_empty t = Inr i"
    and il: "i \<le> length (handlers t)" by blast
  from ok have "0 < length (handlers t)" by (auto simp: table_ok_def)
  with store_result [OF ok fe, of h] st il show ?thesis
    by (auto simp: table_ok_def)
qed


lemma store_step:
  assumes ok: "table_ok t"
  shows "\<exists>i t'. find_empty t = Inr i \<and> store t h = Inr (of_nat i, t') \<and> table_ok t' \<and>
           last_index t' = i \<and>
           i \<le> length (handlers t) \<and>
           i < length (handlers t') \<and>
           handlers t' ! i = h \<and>
           (i < length (handlers t) \<longrightarrow> handlers t ! i = None) \<and>
           length (handlers t) \<le> length (handlers t') \<and>
           (\<forall>k. k \<noteq> i \<and> k < length (handlers t) \<longrightarrow> handlers t' ! k = handlers t ! k)"
proof -
  from find_empty_slot [OF ok] obtain i where fe: "find_empty t = Inr i"
    and il: "i \<le> length (handlers t)"
    and emp: "i < length (handlers t) \<longrightarrow> handlers t ! i = None" by blast
  from ok have pos: "0 < length (handlers t)" by (auto simp: table_ok_def)
  let ?t' = "\<lparr>handlers = (if i = length (handlers t)
                              then handlers t @ replicate (length (handlers t)) None
                              else handlers t)[i := h],
                 last_index = i\<rparr>"
  have st: "store t h = Inr (of_nat i, ?t')" by (rule store_result [OF ok fe])
  have ok': "table_ok ?t'" by (rule store_table_ok [OF ok st])
  have a: "i < length (handlers ?t')" using il pos by auto
  have b: "handlers ?t' ! i = h" using il pos by auto
  have c: "length (handlers t) \<le> length (handlers ?t')" by auto
  have d: "\<forall>k. k \<noteq> i \<and> k < length (handlers t) \<longrightarrow> handlers ?t' ! k = handlers t ! k"
    by (auto simp: nth_append)
  from fe st ok' il a b c d emp show ?thesis by (intro exI [of _ i] exI [of _ ?t']) simp
qed

lemma store_all_indices:
  "table_ok t \<Longrightarrow>
   \<exists>js t'. store_all t (map Some cs) = Inr (map of_nat js, t') \<and> table_ok t' \<and>
     length js = length cs \<and> distinct js \<and>
     length (handlers t) \<le> length (handlers t') \<and>
     (\<forall>j \<in> set js. j < length (handlers t') \<and> handlers t' ! j \<noteq> None \<and>
                     (j < length (handlers t) \<longrightarrow> handlers t ! j = None)) \<and>
     (\<forall>k. k < length (handlers t) \<and> handlers t ! k \<noteq> None \<longrightarrow> handlers t' ! k \<noteq> None)"
proof (induction cs arbitrary: t)
  case Nil
  then show ?case by (intro exI [of _ "[]"] exI [of _ t]) simp
next
  case (Cons c cs)
  from store_step [OF Cons.prems, of "Some c"] obtain i t1 where
    st: "store t (Some c) = Inr (of_nat i, t1)" and ok1: "table_ok t1" and
    i1: "i < length (handlers t1)" and occ: "handlers t1 ! i = Some c" and
    emp: "i < length (handlers t) \<longrightarrow> handlers t ! i = None" and
    mono: "length (handlers t) \<le> length (handlers t1)" and
    same: "\<forall>k. k \<noteq> i \<and> k < length (handlers t) \<longrightarrow> handlers t1 ! k = handlers t ! k"
    by blast
  from Cons.IH [OF ok1] obtain js t' where
    sa: "store_all t1 (map Some cs) = Inr (map of_nat js, t')" and ok': "table_ok t'" and
    len: "length js = length cs" and dist: "distinct js" and
    mono': "length (handlers t1) \<le> length (handlers t')" and
    each: "\<forall>j \<in> set js. j < length (handlers t') \<and> handlers t' ! j \<noteq> None \<and>
                     (j < length (handlers t1) \<longrightarrow> handlers t1 ! j = None)" and
    keep: "\<forall>k. k < length (handlers t1) \<and> handlers t1 ! k \<noteq> None \<longrightarrow> handlers t' ! k \<noteq> None"
    by blast
  have fresh: "i \<notin> set js"
  proof
    assume "i \<in> set js"
    with each i1 have "handlers t1 ! i = None" by blast
    with occ show False by simp
  qed
  have run: "store_all t (map Some (c # cs)) = Inr (map of_nat (i # js), t')"
    using st sa by simp
  have i': "i < length (handlers t') \<and> handlers t' ! i \<noteq> None"
    using i1 occ keep mono' by auto
  have each': "\<forall>j \<in> set (i # js). j < length (handlers t') \<and> handlers t' ! j \<noteq> None \<and>
                     (j < length (handlers t) \<longrightarrow> handlers t ! j = None)"
  proof
    fix j assume j: "j \<in> set (i # js)"
    show "j < length (handlers t') \<and> handlers t' ! j \<noteq> None \<and>
                     (j < length (handlers t) \<longrightarrow> handlers t ! j = None)"
    proof (cases "j = i")
      case True
      with i' emp show ?thesis by simp
    next
      case False
      with j have jj: "j \<in> set js" by simp
      have "j < length (handlers t) \<longrightarrow> handlers t ! j = None"
      proof
        assume jl: "j < length (handlers t)"
        with mono have "j < length (handlers t1)" by simp
        with each jj have "handlers t1 ! j = None" by blast
        with same False jl show "handlers t ! j = None" by simp
      qed
      with each jj show ?thesis by blast
    qed
  qed
  have keep': "\<forall>k. k < length (handlers t) \<and> handlers t ! k \<noteq> None \<longrightarrow> handlers t' ! k \<noteq> None"
  proof (intro allI impI)
    fix k assume k: "k < length (handlers t) \<and> handlers t ! k \<noteq> None"
    with emp have "k \<noteq> i" by auto
    with same k have "handlers t1 ! k \<noteq> None" by simp
    with keep k mono show "handlers t' ! k \<noteq> None" by simp
  qed
  from run ok' len dist fresh mono mono' each' keep' show ?case
    by (intro exI [of _ "i # js"] exI [of _ t']) simp
qed

lemma distinct_ids:
  assumes "distinct js" and "\<forall>j \<in> set js. j < 2 ^ 32"
  shows "distinct (map of_nat js :: 32 word list)"
proof -
  have "inj_on (of_nat :: nat \<Rightarrow> 32 word) (set js)"
  proof (rule inj_onI)
    fix a b assume a: "a \<in> set js" and b: "b \<in> set js"
      and eq: "(of_nat a :: 32 word) = of_nat b"
    from eq have "unat (of_nat a :: 32 word) = unat (of_nat b :: 32 word)" by simp
    then have "a mod 2 ^ 32 = b mod 2 ^ 32" by (simp add: unat_of_nat)
    with a b assms(2) show "a = b" by simp
  qed
  with assms(1) show ?thesis by (simp add: distinct_map)
qed

lemma unat_id: "j < 2 ^ 32 \<Longrightarrow> unat (of_nat j :: 32 word) = j"
  by (simp add: unat_of_nat)

section \<open>Allocation of ids\<close>

text \<open>
  Claim C3, as amended. For a table whose last-assigned index is a slot of the vector:
  \<^item> \<open>store\<close> returns the index \<open>find_empty\<close> found, which is the lowest empty slot
    strictly after the last-assigned index; or, when no slot after it is empty, the lowest
    empty slot from the start up to the last-assigned index; or, when no slot is empty,
    the size;
  \<^item> \<open>N\<close> consecutive calls of \<open>store\<close>, each with a handler that holds a callable target,
    all return, and as long as the table has at most \<open>2^32\<close> slots the \<open>N\<close> ids are pairwise
    distinct and in bounds;
  \<^item> on a full table \<open>store\<close> doubles the size of the vector and returns the old size,
    which is in bounds of the new vector.
  The claim as stated also covers calls with an empty handler, for which the ids may
  repeat: see the counterexample below.
\<close>

theorem store_round_robin:
  assumes ok: "table_ok t"
  shows "(\<exists>i t'. find_empty t = Inr i \<and> store t h = Inr (of_nat i, t') \<and> last_index t' = i \<and>
           ((last_index t < i \<and> i < length (handlers t) \<and> handlers t ! i = None \<and>
               (\<forall>k. last_index t < k \<and> k < i \<longrightarrow> handlers t ! k \<noteq> None))
          \<or> ((\<forall>k. last_index t < k \<and> k < length (handlers t) \<longrightarrow> handlers t ! k \<noteq> None) \<and>
               i \<le> last_index t \<and> handlers t ! i = None \<and>
               (\<forall>k. k < i \<longrightarrow> handlers t ! k \<noteq> None))
          \<or> ((\<forall>k. k < length (handlers t) \<longrightarrow> handlers t ! k \<noteq> None) \<and>
               i = length (handlers t))))
       \<and> (\<exists>ids t'. store_all t (map Some cs) = Inr (ids, t') \<and> length ids = length cs \<and>
             (length (handlers t') \<le> 2 ^ 32 \<longrightarrow>
                distinct ids \<and> (\<forall>w \<in> set ids. unat w < length (handlers t'))))
       \<and> ((\<forall>k. k < length (handlers t) \<longrightarrow> handlers t ! k \<noteq> None) \<longrightarrow>
            (\<exists>t'. store t h = Inr (of_nat (length (handlers t)), t') \<and>
                  length (handlers t') = 2 * length (handlers t) \<and>
                  length (handlers t) < length (handlers t') \<and>
                  (length (handlers t') \<le> 2 ^ 32 \<longrightarrow>
                     unat (of_nat (length (handlers t)) :: 32 word) < length (handlers t'))))"
proof (intro conjI)
  from find_empty_cases [OF ok] obtain i where fe: "find_empty t = Inr i" and
    c: "(last_index t < i \<and> i < length (handlers t) \<and> handlers t ! i = None \<and>
               (\<forall>k. last_index t < k \<and> k < i \<longrightarrow> handlers t ! k \<noteq> None))
          \<or> ((\<forall>k. last_index t < k \<and> k < length (handlers t) \<longrightarrow> handlers t ! k \<noteq> None) \<and>
               i \<le> last_index t \<and> handlers t ! i = None \<and>
               (\<forall>k. k < i \<longrightarrow> handlers t ! k \<noteq> None))
          \<or> ((\<forall>k. k < length (handlers t) \<longrightarrow> handlers t ! k \<noteq> None) \<and>
               i = length (handlers t))" by blast
  from store_result [OF ok fe, of h] obtain t' where
    st: "store t h = Inr (of_nat i, t')" and li: "last_index t' = i" by simp
  from fe st li c
  show "\<exists>i t'. find_empty t = Inr i \<and> store t h = Inr (of_nat i, t') \<and> last_index t' = i \<and>
           ((last_index t < i \<and> i < length (handlers t) \<and> handlers t ! i = None \<and>
               (\<forall>k. last_index t < k \<and> k < i \<longrightarrow> handlers t ! k \<noteq> None))
          \<or> ((\<forall>k. last_index t < k \<and> k < length (handlers t) \<longrightarrow> handlers t ! k \<noteq> None) \<and>
               i \<le> last_index t \<and> handlers t ! i = None \<and>
               (\<forall>k. k < i \<longrightarrow> handlers t ! k \<noteq> None))
          \<or> ((\<forall>k. k < length (handlers t) \<longrightarrow> handlers t ! k \<noteq> None) \<and>
               i = length (handlers t)))"
    by blast
next
  from store_all_indices [OF ok, of cs] obtain js t' where
    sa: "store_all t (map Some cs) = Inr (map of_nat js, t')" and
    len: "length js = length cs" and dist: "distinct js" and
    each: "\<forall>j \<in> set js. j < length (handlers t')" by blast
  have "length (handlers t') \<le> 2 ^ 32 \<longrightarrow>
          distinct (map of_nat js :: 32 word list) \<and>
          (\<forall>w \<in> set (map of_nat js :: 32 word list). unat w < length (handlers t'))"
  proof
    assume bound: "length (handlers t') \<le> 2 ^ 32"
    with each have small: "\<forall>j \<in> set js. j < 2 ^ 32" by fastforce
    have "\<forall>w \<in> set (map of_nat js :: 32 word list). unat w < length (handlers t')"
    proof
      fix w :: "32 word" assume "w \<in> set (map of_nat js)"
      then obtain j where j: "j \<in> set js" and w: "w = of_nat j" by auto
      from small j have "unat (of_nat j :: 32 word) = j" by (simp add: unat_id)
      with each j w show "unat w < length (handlers t')" by simp
    qed
    with distinct_ids [OF dist small]
    show "distinct (map of_nat js :: 32 word list) \<and>
          (\<forall>w \<in> set (map of_nat js :: 32 word list). unat w < length (handlers t'))" by simp
  qed
  with sa len
  show "\<exists>ids t'. store_all t (map Some cs) = Inr (ids, t') \<and> length ids = length cs \<and>
             (length (handlers t') \<le> 2 ^ 32 \<longrightarrow>
                distinct ids \<and> (\<forall>w \<in> set ids. unat w < length (handlers t')))"
    by (intro exI [of _ "map of_nat js"] exI [of _ t']) simp
next
  show "(\<forall>k. k < length (handlers t) \<longrightarrow> handlers t ! k \<noteq> None) \<longrightarrow>
            (\<exists>t'. store t h = Inr (of_nat (length (handlers t)), t') \<and>
                  length (handlers t') = 2 * length (handlers t) \<and>
                  length (handlers t) < length (handlers t') \<and>
                  (length (handlers t') \<le> 2 ^ 32 \<longrightarrow>
                     unat (of_nat (length (handlers t)) :: 32 word) < length (handlers t')))"
  proof
    assume full: "\<forall>k. k < length (handlers t) \<longrightarrow> handlers t ! k \<noteq> None"
    from find_empty_slot [OF ok] obtain i where fe: "find_empty t = Inr i" and
      il: "i \<le> length (handlers t)" and
      emp: "i < length (handlers t) \<longrightarrow> handlers t ! i = None" by blast
    from full emp il have i: "i = length (handlers t)" by (cases "i < length (handlers t)") auto
    from ok have pos: "0 < length (handlers t)" by (auto simp: table_ok_def)
    let ?t' = "\<lparr>handlers = (handlers t @ replicate (length (handlers t)) None)
                              [length (handlers t) := h],
                 last_index = length (handlers t)\<rparr>"
    from store_result [OF ok fe, of h] i
    have st: "store t h = Inr (of_nat (length (handlers t)), ?t')" by simp
    have l2: "length (handlers ?t') = 2 * length (handlers t)" by simp
    have lt: "length (handlers t) < length (handlers ?t')" using pos by simp
    have "length (handlers ?t') \<le> 2 ^ 32 \<longrightarrow>
            unat (of_nat (length (handlers t)) :: 32 word) < length (handlers ?t')"
    proof
      assume "length (handlers ?t') \<le> 2 ^ 32"
      with lt have "length (handlers t) < 2 ^ 32" by simp
      then have "unat (of_nat (length (handlers t)) :: 32 word) = length (handlers t)"
        by (rule unat_id)
      with lt show "unat (of_nat (length (handlers t)) :: 32 word) < length (handlers ?t')"
        by simp
    qed
    with st l2 lt show "\<exists>t'. store t h = Inr (of_nat (length (handlers t)), t') \<and>
                  length (handlers t') = 2 * length (handlers t) \<and>
                  length (handlers t) < length (handlers t') \<and>
                  (length (handlers t') \<le> 2 ^ 32 \<longrightarrow>
                     unat (of_nat (length (handlers t)) :: 32 word) < length (handlers t'))"
      by (intro exI [of _ ?t']) simp
  qed
qed

text \<open>
  The theorem at a two-slot table: three continuations get the ids 1, 2 and 3, the table
  doubling at the second call.
\<close>

theorem store_round_robin_witness:
  "table_ok \<lparr>handlers = [Some (7::nat), None], last_index = 0\<rparr> \<and>
   find_empty \<lparr>handlers = [Some (7::nat), None], last_index = 0\<rparr> = Inr 1 \<and>
   store_all \<lparr>handlers = [Some (7::nat), None], last_index = 0\<rparr> (map Some [10, 20, 30])
     = Inr ([1, 2, 3], \<lparr>handlers = [Some 7, Some 10, Some 20, Some 30], last_index = 3\<rparr>) \<and>
   distinct [1, 2, 3 :: 32 word] \<and>
   table_ok \<lparr>handlers = [Some (7::nat), Some 10], last_index = 1\<rparr> \<and>
   store \<lparr>handlers = [Some (7::nat), Some 10], last_index = 1\<rparr> (Some 20)
     = Inr (2, \<lparr>handlers = [Some 7, Some 10, Some 20, None], last_index = 2\<rparr>)"
proof -
  have ok: "table_ok \<lparr>handlers = [Some (7::nat), None], last_index = 0\<rparr>"
    by (simp add: table_ok_def)
  have ok2: "table_ok \<lparr>handlers = [Some (7::nat), Some 10], last_index = 1\<rparr>"
    by (simp add: table_ok_def)
  have run: "store_all \<lparr>handlers = [Some (7::nat), None], last_index = 0\<rparr> (map Some [10, 20, 30])
     = Inr ([1, 2, 3], \<lparr>handlers = [Some 7, Some 10, Some 20, Some 30], last_index = 3\<rparr>)"
    by (simp add: store_def find_empty_def scan.simps)
  have fe: "find_empty \<lparr>handlers = [Some (7::nat), None], last_index = 0\<rparr> = Inr 1"
    by (simp add: find_empty_def scan.simps)
  from store_round_robin [OF ok, of "Some 10" "[10, 20, 30]"] run
  have d: "distinct [1, 2, 3 :: 32 word]" by simp
  from store_round_robin [OF ok2, of "Some 20" "[]"]
  have full: "store \<lparr>handlers = [Some (7::nat), Some 10], last_index = 1\<rparr> (Some 20)
     = Inr (2, \<lparr>handlers = [Some 7, Some 10, Some 20, None], last_index = 2\<rparr>)"
    by (simp add: store_def find_empty_def scan.simps)
  from ok ok2 run fe d full show ?thesis by simp
qed

text \<open>
  Two consecutive calls of \<open>store\<close> with an empty handler return the same id: the slot
  written by the first call still converts to \<open>false\<close>, so the second call finds it empty.
\<close>

theorem store_round_robin_counterexample:
  "store_all \<lparr>handlers = [Some (7::nat), None], last_index = 0\<rparr> [None, None]
     = Inr ([1, 1], \<lparr>handlers = [Some 7, None], last_index = 1\<rparr>) \<and>
   \<not> distinct [1, 1 :: 32 word]"
  by (simp add: store_def find_empty_def scan.simps)

section \<open>Routing a response\<close>

lemma unat_null_msgid: "unat null_msgid = 4294967295"
  by (simp add: null_msgid_def)

lemma to_size_t_uint: "to_size_t (uint (w :: 32 word)) = unat w"
proof -
  have "uint w < 2 ^ 32" using uint_bounded [of w] by simp
  then have "uint w < 2 ^ 64" by simp
  then have "uint w mod 2 ^ 64 = uint w" by simp
  then show ?thesis by (simp add: to_size_t_def)
qed

lemma response_array_is_response:
  "is_response [Msg_integer 1, Msg_integer i, err, res]"
  by (simp add: is_response_def)

lemma response_array_not_notification:
  "\<not> is_notification [Msg_integer 1, Msg_integer i, err, res]"
  by (simp add: is_notification_def)

lemma on_rpc_message_response:
  "on_rpc_message L s (Msg_array [Msg_integer 1, Msg_integer i, err, res]) =
   on_rpc_response L s [Msg_integer 1, Msg_integer i, err, res]"
  by (simp add: on_rpc_message_def response_array_is_response response_array_not_notification)

lemma on_rpc_response_sentinel:
  "to_size_t i = unat null_msgid \<Longrightarrow>
   on_rpc_response L s [tag, Msg_integer i, err, res] = Inr s"
  by (simp add: on_rpc_response_def and_then_def at_def)

lemma on_rpc_response_unmatched:
  "to_size_t i \<noteq> unat null_msgid \<Longrightarrow> \<not> has_handler (handler_table s) (to_size_t i) \<Longrightarrow>
   on_rpc_response L s [tag, Msg_integer i, err, res] =
   Inr (emit s (Log_no_response_handler (to_size_t i)
                  (to_string L (Msg_array [tag, Msg_integer i, err, res]))))"
  by (simp add: on_rpc_response_def and_then_def at_def)

lemma on_rpc_response_matched:
  "to_size_t i \<noteq> unat null_msgid \<Longrightarrow> to_size_t i < length (handlers (handler_table s)) \<Longrightarrow>
   handlers (handler_table s) ! to_size_t i = Some c \<Longrightarrow>
   on_rpc_response L s [tag, Msg_integer i, err, res] =
   Inr ((emit s (Call_handler c err res))
          \<lparr>handler_table :=
             (handler_table s)\<lparr>handlers := (handlers (handler_table s))[to_size_t i := None]\<rparr>\<rparr>)"
  by (simp add: on_rpc_response_def and_then_def at_def has_handler_def get_def)

lemma store_index_small:
  assumes ok: "table_ok t" and small: "2 * length (handlers t) \<le> 2 ^ 32"
    and fe: "find_empty t = Inr i"
  shows "unat (of_nat i :: 32 word) = i \<and> i \<noteq> unat null_msgid"
proof -
  from find_empty_slot [OF ok] fe have "i \<le> length (handlers t)" by auto
  with small have "2 * i \<le> 2 ^ 32" by simp
  then have i: "i \<le> 2147483648" by simp
  then have "i < 2 ^ 32" by simp
  then have "unat (of_nat i :: 32 word) = i" by (rule unat_id)
  with i show ?thesis by (simp add: unat_null_msgid)
qed

text \<open>
  Claim C2, as amended. For a continuation \<open>c\<close> that holds a callable target, a table
  whose last-assigned index is a slot of the vector, and at most \<open>2^31\<close> slots (so that every
  index is a 32-bit id other than the sentinel): \<open>store\<close> returns an id for which
  \<open>has_handler\<close> is true in the table it leaves; the response with that id calls \<open>c\<close> with
  the response's error and result and nothing else, and leaves \<open>has_handler\<close> false for the
  id; a second response with the same id is logged as having no handler, and \<open>c\<close> is not
  called again. The claim as stated also covers an empty handler, for which
  \<open>has_handler\<close> is false right after \<open>store\<close>: see the counterexample below.
\<close>

theorem store_then_route_once:
  assumes ok: "table_ok (handler_table s)"
    and small: "2 * length (handlers (handler_table s)) \<le> 2 ^ 32"
  shows "\<exists>msgid t' s1.
           store (handler_table s) (Some c) = Inr (msgid, t') \<and>
           has_handler t' (unat msgid) \<and>
           on_rpc_message L (s\<lparr>handler_table := t'\<rparr>)
             (Msg_array [Msg_integer 1, Msg_integer (uint msgid), err, res]) = Inr s1 \<and>
           effects s1 = effects s @ [Call_handler c err res] \<and>
           \<not> has_handler (handler_table s1) (unat msgid) \<and>
           on_rpc_message L s1
             (Msg_array [Msg_integer 1, Msg_integer (uint msgid), err', res']) =
             Inr (emit s1 (Log_no_response_handler (unat msgid)
                    (to_string L
                       (Msg_array [Msg_integer 1, Msg_integer (uint msgid), err', res']))))"
proof -
  let ?t = "handler_table s"
  from store_step [OF ok, of "Some c"] obtain i t' where
    fe: "find_empty ?t = Inr i" and
    st: "store ?t (Some c) = Inr (of_nat i, t')" and
    il: "i < length (handlers t')" and occ: "handlers t' ! i = Some c" by blast
  from store_index_small [OF ok small fe]
  have u: "unat (of_nat i :: 32 word) = i" and ns: "i \<noteq> unat null_msgid" by simp_all
  let ?w = "of_nat i :: 32 word"
  let ?s0 = "s\<lparr>handler_table := t'\<rparr>"
  let ?s1 = "(emit ?s0 (Call_handler c err res))
               \<lparr>handler_table := t'\<lparr>handlers := (handlers t')[i := None]\<rparr>\<rparr>"
  have sz: "to_size_t (uint ?w) = i" using u by (simp add: to_size_t_uint)
  have has: "has_handler t' (unat ?w)" using u il occ by (simp add: has_handler_def)
  have r1: "on_rpc_message L ?s0 (Msg_array [Msg_integer 1, Msg_integer (uint ?w), err, res])
              = Inr ?s1"
    using on_rpc_response_matched [of "uint ?w" ?s0 c L "Msg_integer 1" err res] sz ns il occ
    by (simp add: on_rpc_message_response)
  have e1: "effects ?s1 = effects s @ [Call_handler c err res]" by (simp add: emit_def)
  have nh: "\<not> has_handler (handler_table ?s1) (unat ?w)"
    using u il by (simp add: has_handler_def)
  have r2: "on_rpc_message L ?s1
             (Msg_array [Msg_integer 1, Msg_integer (uint ?w), err', res']) =
             Inr (emit ?s1 (Log_no_response_handler (unat ?w)
                    (to_string L
                       (Msg_array [Msg_integer 1, Msg_integer (uint ?w), err', res']))))"
    using on_rpc_response_unmatched [of "uint ?w" ?s1 L "Msg_integer 1" err' res'] sz ns nh u
    by (simp add: on_rpc_message_response)
  from st has r1 e1 nh r2 show ?thesis by blast
qed

text \<open>
  The theorem at a two-slot table: the continuation 9 is stored under id 1, called by the
  first response with id 1 and not by the second.
\<close>

theorem store_then_route_once_witness:
  "table_ok (handler_table
      (neovim_new \<lparr>handlers = [Some (7::nat), None], last_index = 0\<rparr> :: (nat, unit) neovim)) \<and>
   2 * length (handlers (handler_table
      (neovim_new \<lparr>handlers = [Some (7::nat), None], last_index = 0\<rparr> :: (nat, unit) neovim)))
     \<le> (2 :: nat) ^ 32 \<and>
   store \<lparr>handlers = [Some (7::nat), None], last_index = 0\<rparr> (Some 9)
     = Inr (1, \<lparr>handlers = [Some 7, Some 9], last_index = 1\<rparr>) \<and>
   has_handler \<lparr>handlers = [Some (7::nat), Some 9], last_index = 1\<rparr> (unat (1 :: 32 word)) \<and>
   on_rpc_message example_lib
     ((neovim_new \<lparr>handlers = [Some (7::nat), None], last_index = 0\<rparr>)
        \<lparr>handler_table := \<lparr>handlers = [Some 7, Some 9], last_index = 1\<rparr>\<rparr>)
     (Msg_array [Msg_integer 1, Msg_integer 1, Msg_other (), Msg_string ''ok''])
   = Inr ((neovim_new \<lparr>handlers = [Some 7, None], last_index = 1\<rparr>)
            \<lparr>effects := [Call_handler 9 (Msg_other ()) (Msg_string ''ok'')]\<rparr>) \<and>
   on_rpc_message example_lib
     ((neovim_new \<lparr>handlers = [Some (7::nat), None], last_index = 1\<rparr>)
            \<lparr>effects := [Call_handler 9 (Msg_other ()) (Msg_string ''ok'')]\<rparr>)
     (Msg_array [Msg_integer 1, Msg_integer 1, Msg_other (), Msg_string ''again''])
   = Inr ((neovim_new \<lparr>handlers = [Some 7, None], last_index = 1\<rparr>)
            \<lparr>effects := [Call_handler 9 (Msg_other ()) (Msg_string ''ok''),
                          Log_no_response_handler 1 ''value'']\<rparr>)"
  using store_then_route_once
    [of "neovim_new \<lparr>handlers = [Some (7::nat), None], last_index = 0\<rparr> :: (nat, unit) neovim"
        9 example_lib "Msg_other ()" "Msg_string ''ok''" "Msg_other ()" "Msg_string ''again''"]
  by (simp add: neovim_new_def table_ok_def store_def find_empty_def scan.simps
      has_handler_def example_lib_def emit_def on_rpc_message_def is_notification_def
      is_response_def on_rpc_response_def and_then_def at_def get_def to_size_t_def
      null_msgid_def)

text \<open>
  \<open>store\<close> of an empty handler returns id 1, and \<open>has_handler\<close> is false for id 1 in the
  table it leaves.
\<close>

theorem store_then_route_once_counterexample:
  "store \<lparr>handlers = [Some (7::nat), None], last_index = 0\<rparr> None
     = Inr (1, \<lparr>handlers = [Some 7, None], last_index = 1\<rparr>) \<and>
   \<not> has_handler \<lparr>handlers = [Some (7::nat), None], last_index = 1\<rparr> (unat (1 :: 32 word))"
  by (simp add: store_def find_empty_def scan.simps has_handler_def)

text \<open>
  Claim C10. Under the same conditions on the table, \<open>store\<close> of an empty handler returns
  an id for which \<open>has_handler\<close> is false: the slot is in bounds and holds an empty handler.
  Later allocations treat the slot as free: \<open>find_empty\<close> finds an empty slot without growing
  the table, and returns this very slot when every other slot is occupied. A response
  with that id is logged as having no handler, and nothing is called.
\<close>

theorem store_empty_handler:
  assumes ok: "table_ok (handler_table s)"
    and small: "2 * length (handlers (handler_table s)) \<le> 2 ^ 32"
  shows "\<exists>msgid t'.
           store (handler_table s) None = Inr (msgid, t') \<and>
           \<not> has_handler t' (unat msgid) \<and>
           unat msgid < length (handlers t') \<and>
           handlers t' ! unat msgid = None \<and>
           (\<exists>j. find_empty t' = Inr j \<and> j < length (handlers t')) \<and>
           ((\<forall>k. k < length (handlers t') \<and> k \<noteq> unat msgid \<longrightarrow> handlers t' ! k \<noteq> None) \<longrightarrow>
              find_empty t' = Inr (unat msgid)) \<and>
           on_rpc_message L (s\<lparr>handler_table := t'\<rparr>)
             (Msg_array [Msg_integer 1, Msg_integer (uint msgid), err, res]) =
             Inr (emit (s\<lparr>handler_table := t'\<rparr>)
                    (Log_no_response_handler (unat msgid)
                       (to_string L
                          (Msg_array [Msg_integer 1, Msg_integer (uint msgid), err, res]))))"
proof -
  let ?t = "handler_table s"
  from store_step [OF ok, of None] obtain i t' where
    fe: "find_empty ?t = Inr i" and
    st: "store ?t None = Inr (of_nat i, t')" and ok': "table_ok t'" and
    il: "i < length (handlers t')" and emp: "handlers t' ! i = None" by blast
  from store_index_small [OF ok small fe]
  have u: "unat (of_nat i :: 32 word) = i" and ns: "i \<noteq> unat null_msgid" by simp_all
  let ?w = "of_nat i :: 32 word"
  let ?s0 = "s\<lparr>handler_table := t'\<rparr>"
  have sz: "to_size_t (uint ?w) = i" using u by (simp add: to_size_t_uint)
  have nh: "\<not> has_handler t' (unat ?w)" using u emp by (simp add: has_handler_def)
  from find_empty_slot [OF ok'] obtain j where fj: "find_empty t' = Inr j" and
    jl: "j \<le> length (handlers t')" and
    jfull: "j = length (handlers t') \<longrightarrow> (\<forall>k. k < length (handlers t') \<longrightarrow> handlers t' ! k \<noteq> None)"
    and jemp: "j < length (handlers t') \<longrightarrow> handlers t' ! j = None"
    by blast
  from jfull il emp have "j \<noteq> length (handlers t')" by auto
  with jl have jlt: "j < length (handlers t')" by simp
  have only: "(\<forall>k. k < length (handlers t') \<and> k \<noteq> unat ?w \<longrightarrow> handlers t' ! k \<noteq> None) \<longrightarrow>
                find_empty t' = Inr (unat ?w)"
  proof
    assume others: "\<forall>k. k < length (handlers t') \<and> k \<noteq> unat ?w \<longrightarrow> handlers t' ! k \<noteq> None"
    with jlt jemp u have "j = i" by auto
    with fj u show "find_empty t' = Inr (unat ?w)" by simp
  qed
  have r: "on_rpc_message L ?s0
             (Msg_array [Msg_integer 1, Msg_integer (uint ?w), err, res]) =
             Inr (emit ?s0 (Log_no_response_handler (unat ?w)
                    (to_string L
                       (Msg_array [Msg_integer 1, Msg_integer (uint ?w), err, res]))))"
    using on_rpc_response_unmatched [of "uint ?w" ?s0 L "Msg_integer 1" err res] sz ns nh u
    by (simp add: on_rpc_message_response)
  from st nh il u emp fj jlt only r show ?thesis
    by (intro exI [of _ ?w] exI [of _ t']) auto
qed

text \<open>
  The theorem at a two-slot table whose only free slot is slot 1.
\<close>

theorem store_empty_handler_witness:
  "table_ok (handler_table
      (neovim_new \<lparr>handlers = [Some (7::nat), None], last_index = 0\<rparr> :: (nat, unit) neovim)) \<and>
   2 * length (handlers (handler_table
      (neovim_new \<lparr>handlers = [Some (7::nat), None], last_index = 0\<rparr> :: (nat, unit) neovim)))
     \<le> (2 :: nat) ^ 32 \<and>
   store \<lparr>handlers = [Some (7::nat), None], last_index = 0\<rparr> None
     = Inr (1, \<lparr>handlers = [Some 7, None], last_index = 1\<rparr>) \<and>
   \<not> has_handler \<lparr>handlers = [Some (7::nat), None], last_index = 1\<rparr> (unat (1 :: 32 word)) \<and>
   find_empty \<lparr>handlers = [Some (7::nat), None], last_index = 1\<rparr> = Inr 1 \<and>
   on_rpc_message example_lib
     ((neovim_new \<lparr>handlers = [Some (7::nat), None], last_index = 0\<rparr>)
        \<lparr>handler_table := \<lparr>handlers = [Some 7, None], last_index = 1\<rparr>\<rparr>)
     (Msg_array [Msg_integer 1, Msg_integer 1, Msg_other (), Msg_string ''ok''])
   = Inr ((neovim_new \<lparr>handlers = [Some 7, None], last_index = 1\<rparr>)
            \<lparr>effects := [Log_no_response_handler 1 ''value'']\<rparr>)"
  using store_empty_handler
    [of "neovim_new \<lparr>handlers = [Some (7::nat), None], last_index = 0\<rparr> :: (nat, unit) neovim"
        example_lib "Msg_other ()" "Msg_string ''ok''"]
  by (simp add: neovim_new_def table_ok_def store_def find_empty_def scan.simps
      has_handler_def example_lib_def emit_def on_rpc_message_def is_notification_def
      is_response_def on_rpc_response_def and_then_def at_def get_def to_size_t_def
      null_msgid_def)

section \<open>Classification of decoded messages\<close>

lemma is_integer_iff: "is_integer x \<longleftrightarrow> (\<exists>i. x = Msg_integer i)"
  by (cases x) auto

lemma is_string_iff: "is_string x \<longleftrightarrow> (\<exists>str. x = Msg_string str)"
  by (cases x) auto

lemma is_array_iff: "is_array x \<longleftrightarrow> (\<exists>a. x = Msg_array a)"
  by (cases x) auto

lemma length_3_iff: "length xs = 3 \<longleftrightarrow> (\<exists>a b c. xs = [a, b, c])"
  by (auto simp: length_Suc_conv numeral_3_eq_3)

lemma length_4_iff: "length xs = 4 \<longleftrightarrow> (\<exists>a b c d. xs = [a, b, c, d])"
proof
  assume "length xs = 4"
  then have "length xs = Suc 3" by simp
  then obtain a ys where xs: "xs = a # ys" and ys: "length ys = 3"
    by (auto simp only: length_Suc_conv)
  from ys obtain b c d where "ys = [b, c, d]" by (auto simp only: length_3_iff)
  with xs show "\<exists>a b c d. xs = [a, b, c, d]" by simp
next
  assume "\<exists>a b c d. xs = [a, b, c, d]"
  then show "length xs = 4" by auto
qed

lemma is_notification_iff:
  "is_notification array \<longleftrightarrow>
     (\<exists>name args. array = [Msg_integer 2, Msg_string name, Msg_array args])"
proof
  assume n: "is_notification array"
  then have "length array = 3" by (simp add: is_notification_def)
  then obtain a b c where arr: "array = [a, b, c]" by (auto simp: length_3_iff)
  from n arr have "is_integer a" "is_string b" "is_array c" "get_integer a = Inr 2"
    by (simp_all add: is_notification_def)
  then obtain i name args where "a = Msg_integer i" "b = Msg_string name" "c = Msg_array args"
    "get_integer a = Inr 2"
    by (auto simp: is_integer_iff is_string_iff is_array_iff)
  with arr show "\<exists>name args. array = [Msg_integer 2, Msg_string name, Msg_array args]"
    by simp
next
  assume "\<exists>name args. array = [Msg_integer 2, Msg_string name, Msg_array args]"
  then show "is_notification array" by (auto simp: is_notification_def)
qed

lemma is_response_iff:
  "is_response array \<longleftrightarrow>
     (\<exists>msgid err res. array = [Msg_integer 1, Msg_integer msgid, err, res])"
proof
  assume r: "is_response array"
  then have "length array = 4" by (simp add: is_response_def)
  then obtain a b c d where arr: "array = [a, b, c, d]" by (auto simp: length_4_iff)
  from r arr have "is_integer a" "is_integer b" "get_integer a = Inr 1"
    by (simp_all add: is_response_def)
  then obtain i j where "a = Msg_integer i" "b = Msg_integer j" "get_integer a = Inr 1"
    by (auto simp: is_integer_iff)
  with arr show "\<exists>msgid err res. array = [Msg_integer 1, Msg_integer msgid, err, res]"
    by simp
next
  assume "\<exists>msgid err res. array = [Msg_integer 1, Msg_integer msgid, err, res]"
  then show "is_response array" by (auto simp: is_response_def)
qed

lemma on_rpc_message_notification:
  "on_rpc_message L s (Msg_array [Msg_integer 2, Msg_string name, Msg_array args]) =
     Inr (emit s (if name = ''redraw'' then Ui_redraw args
                  else Log_unhandled_notification (take (min (length name) 128) name)
                         (to_string L (Msg_array args))))"
  by (simp add: on_rpc_message_def is_notification_def on_rpc_notification_def
      and_then_def at_def)

lemma on_rpc_response_routes:
  "on_rpc_response L s [tag, Msg_integer msgid, err, res] =
     (if to_size_t msgid = unat null_msgid then Inr s
      else if \<not> has_handler (handler_table s) (to_size_t msgid)
      then Inr (emit s (Log_no_response_handler (to_size_t msgid)
                  (to_string L (Msg_array [tag, Msg_integer msgid, err, res]))))
      else Inr ((emit s (Call_handler (the (handlers (handler_table s) ! to_size_t msgid))
                           err res))
                  \<lparr>handler_table :=
                     (handler_table s)
                       \<lparr>handlers := (handlers (handler_table s))[to_size_t msgid := None]\<rparr>\<rparr>))"
proof (cases "to_size_t msgid = unat null_msgid")
  case True
  then show ?thesis by (simp add: on_rpc_response_sentinel)
next
  case ns: False
  show ?thesis
  proof (cases "has_handler (handler_table s) (to_size_t msgid)")
    case False
    with ns show ?thesis by (simp add: on_rpc_response_unmatched)
  next
    case True
    then obtain c where "to_size_t msgid < length (handlers (handler_table s))"
      "handlers (handler_table s) ! to_size_t msgid = Some c"
      by (auto simp: has_handler_def)
    with ns True show ?thesis by (simp add: on_rpc_response_matched)
  qed
qed

lemma on_rpc_message_malformed:
  assumes nn: "\<not> (\<exists>name args. obj = Msg_array [Msg_integer 2, Msg_string name, Msg_array args])"
    and nr: "\<not> (\<exists>msgid err res. obj = Msg_array [Msg_integer 1, Msg_integer msgid, err, res])"
  shows "on_rpc_message L s obj =
           Inr (emit s (Log_message_type_error (type_string L obj) (to_string L obj)))"
proof (cases obj)
  case (Msg_array array)
  with nn nr have "\<not> is_notification array" "\<not> is_response array"
    by (simp_all add: is_notification_iff is_response_iff)
  with Msg_array show ?thesis by (simp add: on_rpc_message_def)
qed (simp_all add: on_rpc_message_def)


text \<open>
  Claim C1. \<open>is_notification\<close> holds exactly of the 3-element arrays \<open>{2, name, args}\<close> with
  a string \<open>name\<close> and an array \<open>args\<close>, and such a message is dispatched as a notification
  with that name and those arguments (to the UI when the name is \<open>redraw\<close>, to the log
  otherwise). \<open>is_response\<close> holds exactly of the 4-element arrays \<open>{1, id, error, result}\<close>
  with an integer \<open>id\<close>, and such a message is routed as a response: ignored for the sentinel
  id, logged when no continuation is stored under the id, and otherwise delivered to the
  stored continuation with \<open>error\<close> and \<open>result\<close>. Every other decoded value (another size,
  another tag, elements of other types, or not an array) is logged with its type string
  and its textual value, and nothing else happens. \<open>on_rpc_message\<close> never faults.
\<close>

theorem on_rpc_message_classifies:
  "(is_notification array \<longleftrightarrow>
      (\<exists>name args. array = [Msg_integer 2, Msg_string name, Msg_array args]))
   \<and> (is_response array \<longleftrightarrow>
      (\<exists>msgid err res. array = [Msg_integer 1, Msg_integer msgid, err, res]))
   \<and> on_rpc_message L s (Msg_array [Msg_integer 2, Msg_string name, Msg_array args]) =
       Inr (emit s (if name = ''redraw'' then Ui_redraw args
                    else Log_unhandled_notification (take (min (length name) 128) name)
                           (to_string L (Msg_array args))))
   \<and> on_rpc_message L s (Msg_array [Msg_integer 1, Msg_integer msgid, err, res]) =
       (if to_size_t msgid = unat null_msgid then Inr s
        else if \<not> has_handler (handler_table s) (to_size_t msgid)
        then Inr (emit s (Log_no_response_handler (to_size_t msgid)
                    (to_string L (Msg_array [Msg_integer 1, Msg_integer msgid, err, res]))))
        else Inr ((emit s (Call_handler (the (handlers (handler_table s) ! to_size_t msgid))
                             err res))
                    \<lparr>handler_table :=
                       (handler_table s)
                         \<lparr>handlers := (handlers (handler_table s))[to_size_t msgid := None]\<rparr>\<rparr>))
   \<and> (\<not> (\<exists>name args. obj = Msg_array [Msg_integer 2, Msg_string name, Msg_array args]) \<and>
      \<not> (\<exists>msgid err res. obj = Msg_array [Msg_integer 1, Msg_integer msgid, err, res]) \<longrightarrow>
        on_rpc_message L s obj =
          Inr (emit s (Log_message_type_error (type_string L obj) (to_string L obj))))
   \<and> (\<exists>s'. on_rpc_message L s obj = Inr s')"
proof (intro conjI)
  show "is_notification array \<longleftrightarrow>
      (\<exists>name args. array = [Msg_integer 2, Msg_string name, Msg_array args])"
    by (rule is_notification_iff)
  show "is_response array \<longleftrightarrow>
      (\<exists>msgid err res. array = [Msg_integer 1, Msg_integer msgid, err, res])"
    by (rule is_response_iff)
  show "on_rpc_message L s (Msg_array [Msg_integer 2, Msg_string name, Msg_array args]) =
       Inr (emit s (if name = ''redraw'' then Ui_redraw args
                    else Log_unhandled_notification (take (min (length name) 128) name)
                           (to_string L (Msg_array args))))"
    by (rule on_rpc_message_notification)
  show "on_rpc_message L s (Msg_array [Msg_integer 1, Msg_integer msgid, err, res]) =
       (if to_size_t msgid = unat null_msgid then Inr s
        else if \<not> has_handler (handler_table s) (to_size_t msgid)
        then Inr (emit s (Log_no_response_handler (to_size_t msgid)
                    (to_string L (Msg_array [Msg_integer 1, Msg_integer msgid, err, res]))))
        else Inr ((emit s (Call_handler (the (handlers (handler_table s) ! to_size_t msgid))
                             err res))
                    \<lparr>handler_table :=
                       (handler_table s)
                         \<lparr>handlers := (handlers (handler_table s))[to_size_t msgid := None]\<rparr>\<rparr>))"
    by (simp only: on_rpc_message_response on_rpc_response_routes)
  show "\<not> (\<exists>name args. obj = Msg_array [Msg_integer 2, Msg_string name, Msg_array args]) \<and>
      \<not> (\<exists>msgid err res. obj = Msg_array [Msg_integer 1, Msg_integer msgid, err, res]) \<longrightarrow>
        on_rpc_message L s obj =
          Inr (emit s (Log_message_type_error (type_string L obj) (to_string L obj)))"
    using on_rpc_message_malformed [of obj L s] by blast
  show "\<exists>s'. on_rpc_message L s obj = Inr s'"
  proof (cases "\<exists>name args. obj = Msg_array [Msg_integer 2, Msg_string name, Msg_array args]")
    case True
    then show ?thesis using on_rpc_message_notification [of L s] by auto
  next
    case nn: False
    show ?thesis
    proof (cases "\<exists>msgid err res. obj = Msg_array [Msg_integer 1, Msg_integer msgid, err, res]")
      case True
      then obtain msgid err res where
        o: "obj = Msg_array [Msg_integer 1, Msg_integer msgid, err, res]" by blast
      show ?thesis unfolding o on_rpc_message_response on_rpc_response_routes by simp
    next
      case False
      with nn on_rpc_message_malformed [of obj L s] show ?thesis by blast
    qed
  qed
qed

text \<open>
  The theorem at the messages \<open>{2, "x", []}\<close> (a notification), \<open>{1, 7, nil, "ok"}\<close> (a
  response), \<open>{2, 5, []}\<close> (tag 2, but the name is not a string: malformed),
  \<open>{2, "redraw", [nil]}\<close> and \<open>{1, 0, nil, "ok"}\<close> (delivered to the continuation stored in
  slot 0).
\<close>

theorem on_rpc_message_classifies_witness:
  "is_notification [Msg_integer 2, Msg_string ''x'', Msg_array []] \<and>
   is_response [Msg_integer 1, Msg_integer 7, Msg_other (), Msg_string ''ok''] \<and>
   \<not> is_notification [Msg_integer 2, Msg_integer 5, Msg_array []] \<and>
   \<not> is_response [Msg_integer 2, Msg_integer 5, Msg_array []] \<and>
   on_rpc_message example_lib
     (neovim_new \<lparr>handlers = [Some (7::nat), None], last_index = 0\<rparr>)
     (Msg_array [Msg_integer 2, Msg_integer 5, Msg_array []])
   = Inr ((neovim_new \<lparr>handlers = [Some 7, None], last_index = 0\<rparr>)
            \<lparr>effects := [Log_message_type_error ''object'' ''value'']\<rparr>) \<and>
   on_rpc_message example_lib
     (neovim_new \<lparr>handlers = [Some (7::nat), None], last_index = 0\<rparr>)
     (Msg_array [Msg_integer 2, Msg_string ''redraw'', Msg_array [Msg_other ()]])
   = Inr ((neovim_new \<lparr>handlers = [Some 7, None], last_index = 0\<rparr>)
            \<lparr>effects := [Ui_redraw [Msg_other ()]]\<rparr>) \<and>
   on_rpc_message example_lib
     (neovim_new \<lparr>handlers = [Some (7::nat), None], last_index = 0\<rparr>)
     (Msg_array [Msg_integer 1, Msg_integer 0, Msg_other (), Msg_string ''ok''])
   = Inr ((neovim_new \<lparr>handlers = [None, None], last_index = 0\<rparr>)
            \<lparr>effects := [Call_handler 7 (Msg_other ()) (Msg_string ''ok'')]\<rparr>)"
  using on_rpc_message_classifies
    [where array = "[Msg_integer 2, Msg_string ''x'', Msg_array []]"
       and L = example_lib
       and s = "neovim_new \<lparr>handlers = [Some (7::nat), None], last_index = 0\<rparr>"
       and name = "''redraw''" and args = "[Msg_other ()]"
       and msgid = 0 and err = "Msg_other ()" and res = "Msg_string ''ok''"
       and obj = "Msg_array [Msg_integer 2, Msg_integer 5, Msg_array []]"]
  by (simp add: example_lib_def emit_def neovim_new_def to_size_t_def null_msgid_def
      has_handler_def is_notification_def is_response_def)

text \<open>
  Claim C4. A response whose id is the sentinel \<open>0xFFFFFFFF\<close> leaves the session as it is:
  no continuation is called, the table is unchanged and nothing is logged.
\<close>

theorem sentinel_response_ignored:
  "uint null_msgid = 4294967295 \<and>
   on_rpc_message L s (Msg_array [Msg_integer 1, Msg_integer (uint null_msgid), err, res]) = Inr s"
proof -
  have "to_size_t (uint null_msgid) = unat null_msgid" by (rule to_size_t_uint)
  then have "on_rpc_response L s [Msg_integer 1, Msg_integer (uint null_msgid), err, res] = Inr s"
    by (rule on_rpc_response_sentinel)
  then show ?thesis by (simp add: on_rpc_message_response null_msgid_def)
qed

text \<open>
  Claim C9. A response whose id is not the sentinel and for which \<open>has_handler\<close> is false
  (the id is out of bounds, or the slot is empty) returns normally; the only change to the
  session is one log line that carries the id and the textual form of the response. No
  continuation is called and the table is unchanged.
\<close>

theorem unmatched_response_logged:
  assumes "to_size_t msgid \<noteq> unat null_msgid"
    and "\<not> has_handler (handler_table s) (to_size_t msgid)"
  shows "on_rpc_message L s (Msg_array [Msg_integer 1, Msg_integer msgid, err, res]) =
           Inr (s\<lparr>effects := effects s @
                    [Log_no_response_handler (to_size_t msgid)
                       (to_string L (Msg_array [Msg_integer 1, Msg_integer msgid, err, res]))]\<rparr>)"
  using assms by (simp add: on_rpc_message_response on_rpc_response_unmatched emit_def)

text \<open>
  The theorem at id 5 and a two-slot table.
\<close>

theorem unmatched_response_logged_witness:
  "to_size_t 5 \<noteq> unat null_msgid \<and>
   \<not> has_handler
       (handler_table (neovim_new \<lparr>handlers = [Some (7::nat), None], last_index = 0\<rparr>
          :: (nat, unit) neovim))
       (to_size_t 5) \<and>
   on_rpc_message example_lib
     (neovim_new \<lparr>handlers = [Some (7::nat), None], last_index = 0\<rparr>)
     (Msg_array [Msg_integer 1, Msg_integer 5, Msg_other (), Msg_string ''ok''])
   = Inr ((neovim_new \<lparr>handlers = [Some 7, None], last_index = 0\<rparr>)
            \<lparr>effects := [Log_no_response_handler 5 ''value'']\<rparr>)"
  using unmatched_response_logged
    [of 5 "neovim_new \<lparr>handlers = [Some (7::nat), None], last_index = 0\<rparr>"
        example_lib "Msg_other ()" "Msg_string ''ok''"]
  by (simp add: example_lib_def neovim_new_def to_size_t_def null_msgid_def has_handler_def)

section \<open>The event handlers\<close>

text \<open>
  Claim C8. When \<open>read(2)\<close> in the read handler or \<open>write(2)\<close> in the write handler
  fails, that is returns a negative value (the only one either call returns is \<open>-1\<close>), the
  handler ends in \<open>std::abort\<close>: there is no state to continue from and no error value.
\<close>

theorem io_failure_aborts:
  assumes "bytes < 0" and "- 1 \<le> bytes"
  shows "io_can_read L s bytes objs = Inl Aborted \<and> io_can_write s bytes = Inl Aborted"
proof -
  from assms have "bytes = - 1" by simp
  then show ?thesis by (simp add: io_can_read_def io_can_write_def io_error_def)
qed

text \<open>
  The theorem at the return value \<open>-1\<close>.
\<close>

theorem io_failure_aborts_witness:
  "(- 1 :: int) < 0 \<and> - 1 \<le> (- 1 :: int) \<and>
   io_can_read example_lib
     (neovim_new \<lparr>handlers = [Some (7::nat), None], last_index = 0\<rparr>) (- 1) []
   = Inl Aborted \<and>
   io_can_write
     (neovim_new \<lparr>handlers = [Some (7::nat), None], last_index = 0\<rparr> :: (nat, unit) neovim)
     (- 1)
   = Inl Aborted"
  using io_failure_aborts
    [of "- 1" example_lib
        "neovim_new \<lparr>handlers = [Some (7::nat), None], last_index = 0\<rparr>" "[]"]
  by simp









section \<open>Connecting to a socket\<close>

lemma connect_too_long:
  "sun_path_size \<le> length addr \<Longrightarrow> connect sun_path_size K addr s p = (EINVAL, s, p)"
  by (simp add: connect_def)

lemma connect_proceeds:
  assumes "length addr < sun_path_size"
  shows "snd (snd (connect sun_path_size K addr s p)) =
           (if socket_ret K = - 1 then p\<lparr>syscalls := syscalls p @ [Sys_socket]\<rparr>
            else p\<lparr>open_fds := insert (socket_ret K) (open_fds p),
                   syscalls := syscalls p @
                     [Sys_socket, Sys_fcntl_cloexec (socket_ret K),
                      Sys_connect (socket_ret K) addr]\<rparr>)"
  using assms by (simp add: connect_def Let_def sys_call_def create_sources_def split: prod.splits)


lemma connect_failure_keeps_socket_open:
  assumes "length addr < sun_path_size" and "socket_ret K \<noteq> - 1" and "connect_ret K = - 1"
  shows "connect sun_path_size K addr s p =
           (connect_errno K, s,
            p\<lparr>open_fds := insert (socket_ret K) (open_fds p),
              syscalls := syscalls p @
                [Sys_socket, Sys_fcntl_cloexec (socket_ret K),
                 Sys_connect (socket_ret K) addr]\<rparr>)"
  using assms by (simp add: connect_def Let_def sys_call_def)

text \<open>
  Claim C6. \<open>connect\<close> returns \<open>EINVAL\<close> without any system call (in particular before any
  socket is opened) iff the address does not fit \<open>sun_path\<close> together with its terminating
  NUL, that is iff its length is at least \<open>sizeof(sun_path)\<close>; the longest address accepted
  has \<open>sizeof(sun_path) - 1\<close> characters. For every shorter address \<open>connect\<close> calls
  \<open>socket(2)\<close> and, when that gave a descriptor, sets close-on-exec on it and calls
  \<open>connect(2)\<close> with the address.
\<close>

theorem connect_rejects_long_address:
  "((fst (connect sun_path_size K addr s p) = EINVAL \<and>
     snd (snd (connect sun_path_size K addr s p)) = p) \<longleftrightarrow> sun_path_size \<le> length addr)
   \<and> (sun_path_size \<le> length addr \<longrightarrow> connect sun_path_size K addr s p = (EINVAL, s, p))
   \<and> (length addr < sun_path_size \<longrightarrow>
        snd (snd (connect sun_path_size K addr s p)) =
           (if socket_ret K = - 1 then p\<lparr>syscalls := syscalls p @ [Sys_socket]\<rparr>
            else p\<lparr>open_fds := insert (socket_ret K) (open_fds p),
                   syscalls := syscalls p @
                     [Sys_socket, Sys_fcntl_cloexec (socket_ret K),
                      Sys_connect (socket_ret K) addr]\<rparr>))"
proof (intro conjI)
  show "(fst (connect sun_path_size K addr s p) = EINVAL \<and>
     snd (snd (connect sun_path_size K addr s p)) = p) \<longleftrightarrow> sun_path_size \<le> length addr"
  proof
    assume l: "fst (connect sun_path_size K addr s p) = EINVAL \<and>
     snd (snd (connect sun_path_size K addr s p)) = p"
    show "sun_path_size \<le> length addr"
    proof (rule ccontr)
      assume "\<not> sun_path_size \<le> length addr"
      then have lt: "length addr < sun_path_size" by simp
      from connect_proceeds [OF lt, of K s p] l
      have "syscalls p =
              syscalls (if socket_ret K = - 1 then p\<lparr>syscalls := syscalls p @ [Sys_socket]\<rparr>
                 else p\<lparr>open_fds := insert (socket_ret K) (open_fds p),
                   syscalls := syscalls p @
                     [Sys_socket, Sys_fcntl_cloexec (socket_ret K),
                      Sys_connect (socket_ret K) addr]\<rparr>)" by simp
      then show False by (simp split: if_splits)
    qed
  next
    assume "sun_path_size \<le> length addr"
    then show "fst (connect sun_path_size K addr s p) = EINVAL \<and>
     snd (snd (connect sun_path_size K addr s p)) = p" by (simp add: connect_too_long)
  qed
  show "sun_path_size \<le> length addr \<longrightarrow> connect sun_path_size K addr s p = (EINVAL, s, p)"
    by (simp add: connect_too_long)
  show "length addr < sun_path_size \<longrightarrow>
        snd (snd (connect sun_path_size K addr s p)) =
           (if socket_ret K = - 1 then p\<lparr>syscalls := syscalls p @ [Sys_socket]\<rparr>
            else p\<lparr>open_fds := insert (socket_ret K) (open_fds p),
                   syscalls := syscalls p @
                     [Sys_socket, Sys_fcntl_cloexec (socket_ret K),
                      Sys_connect (socket_ret K) addr]\<rparr>)"
    using connect_proceeds [of addr sun_path_size K s p] by blast
qed

text \<open>
  The theorem with \<open>sizeof(sun_path) = 104\<close>, at an address of 104 characters and at
  \<open>/tmp/nvim.sock\<close>.
\<close>

theorem connect_rejects_long_address_witness:
  "104 \<le> length (replicate 104 CHR ''a'') \<and>
   connect 104 \<lparr>socket_ret = 3, socket_errno = 0, connect_ret = 0, connect_errno = 0\<rparr>
     (replicate 104 CHR ''a'')
     (neovim_new \<lparr>handlers = [Some (7::nat), None], last_index = 0\<rparr> :: (nat, unit) neovim)
     \<lparr>open_fds = {0, 1, 2}, syscalls = []\<rparr>
   = (EINVAL, neovim_new \<lparr>handlers = [Some 7, None], last_index = 0\<rparr>,
      \<lparr>open_fds = {0, 1, 2}, syscalls = []\<rparr>) \<and>
   length ''/tmp/nvim.sock'' < (104::nat) \<and>
   snd (snd (connect 104 \<lparr>socket_ret = 3, socket_errno = 0, connect_ret = 0, connect_errno = 0\<rparr>
     ''/tmp/nvim.sock''
     (neovim_new \<lparr>handlers = [Some (7::nat), None], last_index = 0\<rparr> :: (nat, unit) neovim)
     \<lparr>open_fds = {0, 1, 2}, syscalls = []\<rparr>))
   = \<lparr>open_fds = {3, 0, 1, 2},
      syscalls = [Sys_socket, Sys_fcntl_cloexec 3, Sys_connect 3 ''/tmp/nvim.sock'']\<rparr>"
  using connect_rejects_long_address
    [of 104 "\<lparr>socket_ret = 3, socket_errno = 0, connect_ret = 0, connect_errno = 0\<rparr>"
        "replicate 104 CHR ''a''"
        "neovim_new \<lparr>handlers = [Some (7::nat), None], last_index = 0\<rparr> :: (nat, unit) neovim"
        "\<lparr>open_fds = {0, 1, 2}, syscalls = []\<rparr>"]
    connect_rejects_long_address
    [of 104 "\<lparr>socket_ret = 3, socket_errno = 0, connect_ret = 0, connect_errno = 0\<rparr>"
        "''/tmp/nvim.sock''"
        "neovim_new \<lparr>handlers = [Some (7::nat), None], last_index = 0\<rparr> :: (nat, unit) neovim"
        "\<lparr>open_fds = {0, 1, 2}, syscalls = []\<rparr>"]
  by simp

text \<open>
  Claim C5 does not hold of \<open>connect\<close>. When \<open>socket(2)\<close> returns descriptor 3 and
  \<open>connect(2)\<close> then fails with \<open>errno\<close> 61, \<open>connect\<close> returns 61 and leaves both descriptors
  of the session at \<open>-1\<close>, but descriptor 3 is still open when it returns.
\<close>

theorem connect_failure_leaks_socket:
  "connect 104 \<lparr>socket_ret = 3, socket_errno = 0, connect_ret = - 1, connect_errno = 61\<rparr>
     ''/tmp/nvim.sock''
     (neovim_new \<lparr>handlers = [Some (7::nat), None], last_index = 0\<rparr> :: (nat, unit) neovim)
     \<lparr>open_fds = {0, 1, 2}, syscalls = []\<rparr>
   = (61, neovim_new \<lparr>handlers = [Some 7, None], last_index = 0\<rparr>,
      \<lparr>open_fds = {3, 0, 1, 2},
       syscalls = [Sys_socket, Sys_fcntl_cloexec 3, Sys_connect 3 ''/tmp/nvim.sock'']\<rparr>)"
  by (simp add: connect_def Let_def sys_call_def)

end
